theory Spec2Isabelle
  imports Main "HOL-Library.Log_Nat"
begin

section \<open>Python floats\<close>

text \<open>
  The confidence heuristic of \<^verbatim>\<open>faq_processor.py\<close> computes with Python floats, which
  are IEEE 754 binary64 numbers. A finite float is represented here by the rational number
  it denotes. Every arithmetic operation of the source is the exact operation followed
  by rounding to the nearest float, ties to even (\<open>rnd\<close>). The values of the heuristic lie
  between 0 and the number of words of a string divided by 1000, so neither overflow nor
  subnormal numbers, infinities or NaN occur, and the exponent is left unbounded.
\<close>

type_synonym double = rat

text \<open>Rounding a rational to the nearest integer, ties to the even one.\<close>

definition round_half_even :: "rat \<Rightarrow> int" where
  "round_half_even x =
     (let f = \<lfloor>x\<rfloor>; r = x - of_int f in
      if r < 1/2 then f else if 1/2 < r then f + 1
      else if even f then f else f + 1)"

text \<open>The binary exponent \<open>e\<close> of a positive rational: \<open>2 ^ e \<le> x < 2 ^ (e + 1)\<close>.\<close>

definition expo :: "rat \<Rightarrow> int" where
  "expo x = (let (p, q) = quotient_of x; d = bitlen p - bitlen q in
             if power_int 2 d \<le> x then d else d - 1)"

text \<open>Rounding to a float with a 53-bit significand.\<close>

definition rnd :: "rat \<Rightarrow> double" where
  "rnd x = (if x = 0 then 0 else
     let u = power_int 2 (expo \<bar>x\<bar> - 52) in
     sgn x * of_int (round_half_even (\<bar>x\<bar> / u)) * u)"

text \<open>A decimal literal of the source, such as \<^verbatim>\<open>0.9\<close>, is the float nearest to it.\<close>

definition float_lit :: "rat \<Rightarrow> double" where
  "float_lit q = rnd q"

text \<open>\<^verbatim>\<open>a / b\<close> on two Python ints is the correctly rounded quotient.\<close>

definition true_div :: "int \<Rightarrow> int \<Rightarrow> double" where
  "true_div a b = rnd (of_int a / of_int b)"

definition fmul :: "double \<Rightarrow> double \<Rightarrow> double" where
  "fmul x y = rnd (x * y)"

definition fadd :: "double \<Rightarrow> double \<Rightarrow> double" where
  "fadd x y = rnd (x + y)"

text \<open>\<^verbatim>\<open>min(a, b)\<close> keeps its first argument unless the second is smaller.\<close>

definition py_min :: "double \<Rightarrow> double \<Rightarrow> double" where
  "py_min a b = (if b < a then b else a)"

text \<open>
  \<^verbatim>\<open>round(x, ndigits)\<close> on a float: the exact value of \<open>x\<close> is rounded to \<open>ndigits\<close>
  decimal places, ties to even, and the decimal result is converted back to the nearest
  float.
\<close>

definition py_round :: "double \<Rightarrow> nat \<Rightarrow> double" where
  "py_round x ndigits = rnd (of_int (round_half_even (x * 10 ^ ndigits)) / 10 ^ ndigits)"


section \<open>Python strings\<close>

text \<open>
  Strings are lists of characters; a character is a code point below 256. The
  whitespace characters are those for which \<^verbatim>\<open>str.isspace\<close> holds in that range.
\<close>

definition isspace :: "char \<Rightarrow> bool" where
  "isspace c = ((of_char c :: nat) \<in> {9, 10, 11, 12, 13, 28, 29, 30, 31, 32, 133, 160})"

text \<open>\<^verbatim>\<open>s.split()\<close>: the maximal runs of characters that are not whitespace.\<close>

function py_split :: "string \<Rightarrow> string list" where
  "py_split [] = []"
| "py_split (c # cs) =
     (if isspace c then py_split cs
      else (c # takeWhile (\<lambda>x. \<not> isspace x) cs) # py_split (dropWhile (\<lambda>x. \<not> isspace x) cs))"
  by pat_completeness auto
termination
  by (relation "measure length") (auto simp: le_imp_less_Suc length_dropWhile_le)

text \<open>\<^verbatim>\<open>s.strip()\<close>: whitespace removed at both ends.\<close>

definition py_strip :: "string \<Rightarrow> string" where
  "py_strip s = rev (dropWhile isspace (rev (dropWhile isspace s)))"

text \<open>\<^verbatim>\<open>s.split(sep)\<close> for a separator of one character; the pieces may be empty.\<close>

fun split_on :: "char \<Rightarrow> string \<Rightarrow> string list" where
  "split_on sep [] = [[]]"
| "split_on sep (c # cs) =
     (if c = sep then [] # split_on sep cs
      else (case split_on sep cs of
              [] \<Rightarrow> [[c]]
            | w # ws \<Rightarrow> (c # w) # ws))"

text \<open>\<^verbatim>\<open>s.lower()\<close> on code points below 256.\<close>

definition lower_char :: "char \<Rightarrow> char" where
  "lower_char c =
     (let n = (of_char c :: nat) in
      if (65 \<le> n \<and> n \<le> 90) \<or> (192 \<le> n \<and> n \<le> 222 \<and> n \<noteq> 215)
      then char_of (n + 32) else c)"

definition py_lower :: "string \<Rightarrow> string" where
  "py_lower s = map lower_char s"

text \<open>\<^verbatim>\<open>sep.join(parts)\<close>.\<close>

fun py_join :: "string \<Rightarrow> string list \<Rightarrow> string" where
  "py_join sep [] = []"
| "py_join sep [x] = x"
| "py_join sep (x # y # ys) = x @ sep @ py_join sep (y # ys)"

text \<open>\<^verbatim>\<open>os.path.dirname(p)\<close> on POSIX paths.\<close>

definition dirname :: "string \<Rightarrow> string" where
  "dirname p =
     (let head = rev (dropWhile (\<lambda>c. c \<noteq> CHR ''/'') (rev p)) in
      if head \<noteq> [] \<and> \<not> list_all (\<lambda>c. c = CHR ''/'') head
      then rev (dropWhile (\<lambda>c. c = CHR ''/'') (rev head))
      else head)"


section \<open>The FAQ processor\<close>

subsection \<open>Data and external services\<close>

text \<open>Any Python exception, with its message.\<close>

datatype error = Error string

text \<open>A document of the vector store library: its text and the file it came from.\<close>

record document =
  page_content :: string
  metadata_source :: string

text \<open>
  The vector index is an object of an external library. All the processor does with it
  is call \<^verbatim>\<open>similarity_search(query, k=...)\<close>, which returns documents or raises.
\<close>

datatype vectorstore = FAISS (similarity_search: "string \<Rightarrow> nat \<Rightarrow> error + document list")

text \<open>
  The processor object: the completion service (\<^verbatim>\<open>self.llm\<close>, given a prompt it
  returns text or raises) and the index (\<^verbatim>\<open>self.vectorstore\<close>, \<open>None\<close> when absent).
  One call of \<^verbatim>\<open>answer_question\<close> sends two different prompts to the completion
  service and searches the index once with \<open>k = 3\<close> and once with \<open>k = 5\<close>, so a function
  from the arguments to the outcome describes any behaviour of the services within a
  request.
\<close>

record processor =
  llm :: "string \<Rightarrow> error + string"
  vectorstore :: "vectorstore option"

text \<open>The calls made to the external services, in order.\<close>

datatype call = LLM_call string | Search_call string nat

record FAQResponse =
  answer :: string
  confidence :: double
  source :: string
  related_questions :: "string list"

subsection \<open>Prompts\<close>

text \<open>The prompt templates of \<^verbatim>\<open>setup_prompts\<close>, filled in.\<close>

definition faq_prompt_format :: "string \<Rightarrow> string \<Rightarrow> string \<Rightarrow> string" where
  "faq_prompt_format question context business_info =
     ''\<newline>'' @
     ''            You are a helpful customer service representative. Answer this customer question based on the provided context and business information.\<newline>'' @
     ''            \<newline>            Customer Question: '' @
     question @
     ''\<newline>            \<newline>            Relevant Context: '' @
     context @
     ''\<newline>            \<newline>            Business Information: '' @
     business_info @
     ''\<newline>            \<newline>            Guidelines:\<newline>'' @
     ''            - Provide a clear, helpful answer\<newline>'' @
     ''            - If you cannot find the answer in the context, say so politely\<newline>'' @
     ''            - Be professional and friendly\<newline>'' @
     ''            - Include relevant details but keep it concise\<newline>'' @
     ''            - If appropriate, suggest next steps or additional resources\<newline>'' @
     ''            \<newline>            Answer:\<newline>            ''"

definition classification_prompt_format :: "string \<Rightarrow> string" where
  "classification_prompt_format question =
     ''\<newline>'' @
     ''            Classify this customer question into one of these categories:\<newline>'' @
     ''            - product_info: Questions about products or services\<newline>'' @
     ''            - support: Technical support or troubleshooting\<newline>'' @
     ''            - billing: Questions about pricing, payments, or billing\<newline>'' @
     ''            - general: General inquiries or other questions\<newline>'' @
     ''            \<newline>            Question: '' @
     question @
     ''\<newline>            \<newline>'' @
     ''            Respond with just the category name:\<newline>'' @
     ''            ''"

definition get_business_info :: string where
  "get_business_info =
     ''\<newline>'' @
     ''        We are a small business focused on providing excellent customer service.\<newline>'' @
     ''        Our business hours are Monday-Friday 9AM-5PM.\<newline>'' @
     ''        We aim to respond to all inquiries within 24 hours.\<newline>'' @
     ''        For urgent matters, please call our support line.\<newline>'' @
     ''        ''"

subsection \<open>The steps of the pipeline\<close>

text \<open>
  \<^verbatim>\<open>_classify_question\<close>: the completion service is asked for a category; any exception
  is caught and the label is \<^verbatim>\<open>"general"\<close>.
\<close>

definition classify_question :: "processor \<Rightarrow> string \<Rightarrow> string \<times> call list" where
  "classify_question self question =
     (let prompt = classification_prompt_format question in
      case llm self prompt of
        Inr result \<Rightarrow> (py_lower (py_strip result), [LLM_call prompt])
      | Inl e \<Rightarrow> (''general'', [LLM_call prompt]))"

text \<open>\<^verbatim>\<open>_get_relevant_context\<close>: the three nearest chunks, joined by blank lines.\<close>

definition get_relevant_context :: "processor \<Rightarrow> string \<Rightarrow> string \<times> call list" where
  "get_relevant_context self question =
     (case vectorstore self of
        None \<Rightarrow> (''No knowledge base available.'', [])
      | Some vs \<Rightarrow>
          (case similarity_search vs question 3 of
             Inr docs \<Rightarrow>
               (py_join ''\<newline>\<newline>'' (map page_content docs), [Search_call question 3])
           | Inl e \<Rightarrow>
               (''Error retrieving relevant information.'', [Search_call question 3])))"

text \<open>\<^verbatim>\<open>_calculate_confidence\<close>.\<close>

definition calculate_confidence :: "string \<Rightarrow> string \<Rightarrow> double" where
  "calculate_confidence question context =
     (if context = [] \<or> context = ''No knowledge base available.'' then float_lit (3/10)
      else
        let context_length = length (py_split context);
            question_length = length (py_split question);
            base_confidence =
              py_min (float_lit (9/10))
                (fadd (float_lit (1/2))
                   (fmul (true_div (int context_length) 1000) (float_lit (4/10))));
            base_confidence =
              (if question_length > 10 then fmul base_confidence (float_lit (9/10))
               else base_confidence)
        in py_round base_confidence 2)"

text \<open>
  The inner loop of \<^verbatim>\<open>_get_related_questions\<close> over the sentences of one chunk. The
  \<^verbatim>\<open>break\<close> leaves this loop only, as soon as three entries are collected.
\<close>

fun related_from_sentences :: "string list \<Rightarrow> string list \<Rightarrow> string list" where
  "related_from_sentences [] related = related"
| "related_from_sentences (sentence # sentences) related =
     (if CHR ''?'' \<in> set sentence \<and> length (py_strip sentence) > 10 then
        (let related' = related @ [py_strip sentence] in
         if length related' \<ge> 3 then related'
         else related_from_sentences sentences related')
      else related_from_sentences sentences related)"

text \<open>The outer loop over the retrieved chunks.\<close>

fun related_from_docs :: "document list \<Rightarrow> string list \<Rightarrow> string list" where
  "related_from_docs [] related = related"
| "related_from_docs (doc # docs) related =
     (let content = page_content doc in
      if CHR ''?'' \<in> set content
      then related_from_docs docs (related_from_sentences (split_on CHR ''.'' content) related)
      else related_from_docs docs related)"

definition get_related_questions :: "processor \<Rightarrow> string \<Rightarrow> string list \<times> call list" where
  "get_related_questions self question =
     (case vectorstore self of
        None \<Rightarrow> ([], [])
      | Some vs \<Rightarrow>
          (case similarity_search vs question 5 of
             Inr docs \<Rightarrow> (take 3 (related_from_docs docs []), [Search_call question 5])
           | Inl e \<Rightarrow> ([], [Search_call question 5])))"

subsection \<open>Answering a question\<close>

text \<open>
  The body of the \<^verbatim>\<open>try\<close> block of \<^verbatim>\<open>answer_question\<close>. Classification, retrieval and
  the related questions catch their own exceptions; the completion call for the answer
  does not, and its exception leaves the block.
\<close>

definition answer_question_try :: "processor \<Rightarrow> string \<Rightarrow> string \<Rightarrow> (error + FAQResponse) \<times> call list" where
  "answer_question_try self question context =
     (let (question_type, calls1) = classify_question self question;
          (relevant_context, calls2) = get_relevant_context self question;
          full_context =
            (if context \<noteq> [] then context @ ''\<newline>\<newline>'' @ relevant_context
             else relevant_context);
          business_info = get_business_info;
          prompt = faq_prompt_format question full_context business_info
      in case llm self prompt of
           Inl e \<Rightarrow> (Inl e, calls1 @ calls2 @ [LLM_call prompt])
         | Inr answer' \<Rightarrow>
             (let confidence' = calculate_confidence question relevant_context;
                  (related_questions', calls3) = get_related_questions self question
              in (Inr \<lparr>answer = py_strip answer', confidence = confidence',
                        source = ''knowledge_base'', related_questions = related_questions'\<rparr>,
                  calls1 @ calls2 @ [LLM_call prompt] @ calls3)))"

text \<open>The response of the \<^verbatim>\<open>except\<close> branch.\<close>

definition error_response :: FAQResponse where
  "error_response =
     \<lparr>answer = ''I apologize, but I'm having trouble processing your question. Please contact our support team for assistance.'',
      confidence = 0, source = ''error'', related_questions = []\<rparr>"

definition answer_question :: "processor \<Rightarrow> string \<Rightarrow> string \<Rightarrow> FAQResponse \<times> call list" where
  "answer_question self question context =
     (case answer_question_try self question context of
        (Inr response, calls) \<Rightarrow> (response, calls)
      | (Inl e, calls) \<Rightarrow> (error_response, calls))"


text \<open>
  The prompt that \<^verbatim>\<open>answer_question\<close> sends to the completion service for the answer:
  the caller's context, when there is one, comes first, then a blank line and the
  retrieved context.
\<close>

definition answer_prompt :: "processor \<Rightarrow> string \<Rightarrow> string \<Rightarrow> string" where
  "answer_prompt self question context =
     (let relevant_context = fst (get_relevant_context self question);
          full_context =
            (if context \<noteq> [] then context @ ''\<newline>\<newline>'' @ relevant_context
             else relevant_context)
      in faq_prompt_format question full_context get_business_info)"


section \<open>Loading and extending the knowledge base\<close>

text \<open>
  The file system and the libraries that load, split and index documents are external.
  They act on a world \<open>'w\<close>: every operation takes the world and returns its result, or
  the exception it raises, together with the world it leaves behind.
\<close>

record 'w environment =
  os_makedirs :: "string \<Rightarrow> 'w \<Rightarrow> (error + unit) \<times> 'w"
  os_path_exists :: "string \<Rightarrow> 'w \<Rightarrow> bool"
  file_append :: "string \<Rightarrow> string \<Rightarrow> 'w \<Rightarrow> (error + unit) \<times> 'w"
  text_loader_load :: "string \<Rightarrow> 'w \<Rightarrow> (error + document list) \<times> 'w"
  split_documents :: "nat \<Rightarrow> nat \<Rightarrow> document list \<Rightarrow> error + document list"
  faiss_from_documents :: "document list \<Rightarrow> 'w \<Rightarrow> (error + vectorstore) \<times> 'w"

definition kb_dir :: string where
  "kb_dir = ''data/knowledge_base''"

definition faq_files :: "string list" where
  "faq_files =
     [''data/knowledge_base/faq.txt'',
      ''data/knowledge_base/products.txt'',
      ''data/knowledge_base/support.txt'']"

text \<open>The loop of \<^verbatim>\<open>load_knowledge_base\<close> over the files; a file that fails to load is skipped.\<close>

fun load_files :: "'w environment \<Rightarrow> string list \<Rightarrow> document list \<Rightarrow> 'w \<Rightarrow> document list \<times> 'w" where
  "load_files env [] documents w = (documents, w)"
| "load_files env (file_path # rest) documents w =
     (if os_path_exists env file_path w then
        (case text_loader_load env file_path w of
           (Inr docs, w') \<Rightarrow> load_files env rest (documents @ docs) w'
         | (Inl e, w') \<Rightarrow> load_files env rest documents w')
      else load_files env rest documents w)"

text \<open>
  The body of the \<^verbatim>\<open>try\<close> block of \<^verbatim>\<open>load_knowledge_base\<close>: the index it builds
  (\<open>None\<close> when no document was found), or the exception that leaves the block.
\<close>

definition load_knowledge_base_try :: "'w environment \<Rightarrow> 'w \<Rightarrow> (error + vectorstore option) \<times> 'w" where
  "load_knowledge_base_try env w =
     (case os_makedirs env kb_dir w of
        (Inl e, w1) \<Rightarrow> (Inl e, w1)
      | (Inr u, w1) \<Rightarrow>
          (let (documents, w2) = load_files env faq_files [] w1 in
           if documents \<noteq> [] then
             (case split_documents env 1000 200 documents of
                Inl e \<Rightarrow> (Inl e, w2)
              | Inr splits \<Rightarrow>
                  (case faiss_from_documents env splits w2 of
                     (Inl e, w3) \<Rightarrow> (Inl e, w3)
                   | (Inr vs, w3) \<Rightarrow> (Inr (Some vs), w3)))
           else (Inr None, w2)))"

text \<open>
  \<^verbatim>\<open>load_knowledge_base\<close>: the \<^verbatim>\<open>except\<close> branch catches every exception and sets the
  index to \<open>None\<close>; nothing is raised to the caller.
\<close>

definition load_knowledge_base :: "'w environment \<Rightarrow> processor \<Rightarrow> 'w \<Rightarrow> processor \<times> 'w" where
  "load_knowledge_base env self w =
     (case load_knowledge_base_try env w of
        (Inr store, w') \<Rightarrow> (self\<lparr>vectorstore := store\<rparr>, w')
      | (Inl e, w') \<Rightarrow> (self\<lparr>vectorstore := None\<rparr>, w'))"

text \<open>\<^verbatim>\<open>add_faq_entry\<close>: the returned boolean, the processor and the world afterwards.\<close>

definition faq_entry_format :: "string \<Rightarrow> string \<Rightarrow> string \<Rightarrow> string" where
  "faq_entry_format question answer' category =
     ''Q: '' @ question @ ''\<newline>A: '' @ answer' @ ''\<newline>Category: '' @ category @
     ''\<newline>\<newline>''"

definition add_faq_entry ::
  "'w environment \<Rightarrow> processor \<Rightarrow> string \<Rightarrow> string \<Rightarrow> string \<Rightarrow> 'w \<Rightarrow> bool \<times> processor \<times> 'w" where
  "add_faq_entry env self question answer' category w =
     (let faq_entry = faq_entry_format question answer' category;
          faq_file = ''data/knowledge_base/faq.txt''
      in case os_makedirs env (dirname faq_file) w of
           (Inl e, w1) \<Rightarrow> (False, self, w1)
         | (Inr u, w1) \<Rightarrow>
             (case file_append env faq_file faq_entry w1 of
                (Inl e, w2) \<Rightarrow> (False, self, w2)
              | (Inr u', w2) \<Rightarrow>
                  (let (self', w3) = load_knowledge_base env self w2
                   in (True, self', w3))))"


section \<open>The specification's wording\<close>

text \<open>
  The number of whitespace-separated words of a string, counted as the specification
  words it: the number of places where a word starts. The flag tells whether the
  previous character belongs to a word.
\<close>

fun word_starts :: "bool \<Rightarrow> string \<Rightarrow> nat" where
  "word_starts in_word [] = 0"
| "word_starts in_word (c # cs) =
     (if isspace c then word_starts False cs
      else (if in_word then 0 else 1) + word_starts True cs)"

definition spec_word_count :: "string \<Rightarrow> nat" where
  "spec_word_count s = word_starts False s"

text \<open>
  The confidence heuristic as the specification gives it: 0.3 for an empty or placeholder
  context, otherwise
  \<^verbatim>\<open>round(min(0.9, 0.5 + (context_word_count / 1000) * 0.4) * (0.9 if question_word_count > 10 else 1.0), 2)\<close>.
\<close>

definition spec_confidence :: "string \<Rightarrow> string \<Rightarrow> double" where
  "spec_confidence question context =
     (if context = [] \<or> context = ''No knowledge base available.'' then float_lit (3/10)
      else py_round
             (fmul
                (py_min (float_lit (9/10))
                   (fadd (float_lit (1/2))
                      (fmul (true_div (int (spec_word_count context)) 1000) (float_lit (4/10)))))
                (if spec_word_count question > 10 then float_lit (9/10) else float_lit 1))
             2)"


text \<open>
  The related questions as the specification gives them: the sentences of the retrieved
  chunks, split at periods, that contain a question mark and are longer than 10
  characters once stripped, in chunk order; the result is capped at 3.
\<close>

definition question_sentences :: "string \<Rightarrow> string list" where
  "question_sentences content =
     map py_strip
       (filter (\<lambda>sentence. CHR ''?'' \<in> set sentence \<and> 10 < length (py_strip sentence))
          (split_on CHR ''.'' content))"

definition spec_related_questions :: "document list \<Rightarrow> string list" where
  "spec_related_questions docs = take 3 (concat (map (\<lambda>doc. question_sentences (page_content doc)) docs))"


section \<open>Example services\<close>

text \<open>A completion service that answers every prompt, one that is down, and one that
  fails on the classification prompt only (the prompts differ at their 14th character).\<close>

definition llm_up :: "string \<Rightarrow> error + string" where
  "llm_up prompt = Inr '' We are open Monday to Friday. ''"

definition llm_down :: "string \<Rightarrow> error + string" where
  "llm_down prompt = Inl (Error ''timeout'')"

definition llm_classify_down :: "string \<Rightarrow> error + string" where
  "llm_classify_down prompt =
     (if prompt ! 13 = CHR ''C'' then Inl (Error ''timeout'')
      else Inr '' We are open Monday to Friday. '')"

text \<open>An index of two chunks, and an index whose search raises.\<close>

definition chunk_hours :: document where
  "chunk_hours =
     \<lparr>page_content = ''Q: What are your business hours? A: Monday through Friday. Q: Do you ship abroad? A: Yes. Ok?. Q: Is support included? A: Always.'',
      metadata_source = ''data/knowledge_base/faq.txt''\<rparr>"

definition chunk_billing :: document where
  "chunk_billing =
     \<lparr>page_content = ''Q: Which cards do you accept? A: All of them. Q: Can I get a refund? A: Within 30 days.'',
      metadata_source = ''data/knowledge_base/faq.txt''\<rparr>"

definition store_two :: vectorstore where
  "store_two = FAISS (\<lambda>query k. Inr (take k [chunk_hours, chunk_billing]))"

definition store_broken :: vectorstore where
  "store_broken = FAISS (\<lambda>query k. Inl (Error ''index unreadable''))"

text \<open>A file system on which every operation succeeds and one file exists, with an
  embedding service that fails; the world is not inspected.\<close>

definition env_embedding_down :: "unit environment" where
  "env_embedding_down =
     \<lparr>os_makedirs = (\<lambda>path w. (Inr (), w)),
      os_path_exists = (\<lambda>path w. path = ''data/knowledge_base/faq.txt''),
      file_append = (\<lambda>path text w. (Inr (), w)),
      text_loader_load = (\<lambda>path w. (Inr [chunk_hours], w)),
      split_documents = (\<lambda>chunk_size chunk_overlap docs. Inr docs),
      faiss_from_documents = (\<lambda>docs w. (Inl (Error ''embedding service unavailable''), w))\<rparr>"


section \<open>Properties of the float operations\<close>

lemma rhe_of_int: "round_half_even (of_int k) = k"
  by (simp add: round_half_even_def)

lemma rhe_lower: "of_int (round_half_even x) \<ge> x - 1/2"
  unfolding round_half_even_def Let_def by (auto; linarith)

lemma rhe_upper: "of_int (round_half_even x) \<le> x + 1/2"
  unfolding round_half_even_def Let_def by (auto; linarith)

lemma rhe_floor: "\<lfloor>x\<rfloor> \<le> round_half_even x \<and> round_half_even x \<le> \<lfloor>x\<rfloor> + 1"
  unfolding round_half_even_def Let_def by auto

lemma rhe_mono: assumes "x \<le> y" shows "round_half_even x \<le> round_half_even y"
proof (cases "\<lfloor>x\<rfloor> = \<lfloor>y\<rfloor>")
  case True
  with assms show ?thesis
    unfolding round_half_even_def Let_def by auto
next
  case False
  with assms have "\<lfloor>x\<rfloor> < \<lfloor>y\<rfloor>"
    using floor_mono [of x y] by linarith
  then show ?thesis
    using rhe_floor [of x] rhe_floor [of y] by linarith
qed

lemma pow2_bitlen:
  assumes "0 < p"
  shows "power_int 2 (bitlen p - 1) \<le> (of_int p :: rat)"
    and "(of_int p :: rat) < power_int 2 (bitlen p)"
proof -
  from assms have b: "1 \<le> bitlen p"
    using bitlen_eq_zero_iff [of p] bitlen_nonneg [of p] by linarith
  have "(2::int) ^ nat (bitlen p - 1) \<le> p" "p < 2 ^ nat (bitlen p)"
    using bitlen_bounds [OF assms] by auto
  then have "(of_int ((2::int) ^ nat (bitlen p - 1)) :: rat) \<le> of_int p"
    "(of_int p :: rat) < of_int (2 ^ nat (bitlen p))"
    by (simp_all only: of_int_le_iff of_int_less_iff)
  then show "power_int 2 (bitlen p - 1) \<le> (of_int p :: rat)"
    and "(of_int p :: rat) < power_int 2 (bitlen p)"
    using b by (simp_all add: power_int_def)
qed

lemma expo_bounds:
  assumes "0 < x"
  shows "power_int 2 (expo x) \<le> x \<and> x < power_int 2 (expo x + 1)"
proof -
  obtain p q where pq: "quotient_of x = (p, q)" by (cases "quotient_of x")
  then have q: "0 < q" and x: "x = of_int p / of_int q"
    using quotient_of_denom_pos quotient_of_div by auto
  with assms have p: "0 < p"
    by (simp add: zero_less_divide_iff)
  define d where "d = bitlen p - bitlen q"
  have e: "expo x = (if power_int 2 d \<le> x then d else d - 1)"
    by (simp add: expo_def pq d_def Let_def)
  have lo: "power_int 2 (d - 1) \<le> x"
  proof -
    have "power_int 2 (d - 1) = (power_int 2 (bitlen p - 1) :: rat) / power_int 2 (bitlen q)"
      by (simp add: d_def power_int_diff)
    also have "\<dots> \<le> of_int p / of_int q"
      using pow2_bitlen [OF p] pow2_bitlen [OF q] q p
      by (intro frac_le) auto
    finally show ?thesis by (simp add: x)
  qed
  have hi: "x < power_int 2 (d + 1)"
  proof -
    have "of_int p / of_int q < (power_int 2 (bitlen p) :: rat) / power_int 2 (bitlen q - 1)"
      using pow2_bitlen [OF p] pow2_bitlen [OF q] q p
      by (intro frac_less) auto
    also have "\<dots> = power_int 2 (d + 1)"
      using power_int_diff [of "2::rat" "bitlen p" "bitlen q - 1"]
      by (simp add: d_def algebra_simps)
    finally show ?thesis by (simp add: x)
  qed
  show ?thesis
    using lo hi by (auto simp: e)
qed

lemma expo_unique:
  assumes "power_int 2 e \<le> x" "x < power_int 2 (e + 1)"
  shows "expo x = e"
proof -
  have "0 < (power_int 2 e :: rat)" by simp
  with assms have pos: "0 < x" by linarith
  note b = expo_bounds [OF pos]
  have 1: "e < expo x + 1"
  proof (rule ccontr)
    assume "\<not> e < expo x + 1"
    then have "(power_int 2 (expo x + 1) :: rat) \<le> power_int 2 e"
      by (intro power_int_increasing) auto
    with assms b show False by linarith
  qed
  have 2: "expo x < e + 1"
  proof (rule ccontr)
    assume "\<not> expo x < e + 1"
    then have "(power_int 2 (e + 1) :: rat) \<le> power_int 2 (expo x)"
      by (intro power_int_increasing) auto
    with assms b show False by linarith
  qed
  from 1 2 show ?thesis by linarith
qed

lemma rnd_nonneg: "0 \<le> x \<Longrightarrow> 0 \<le> rnd x"
proof -
  assume x: "0 \<le> x"
  show ?thesis
  proof (cases "x = 0")
    case True then show ?thesis by (simp add: rnd_def)
  next
    case False
    with x have pos: "0 < x" by simp
    define u :: rat where "u = power_int 2 (expo x - 52)"
    have u: "0 < u" by (simp add: u_def)
    then have "0 \<le> x / u" using pos by simp
    then have "0 \<le> round_half_even (x / u)"
      using rhe_mono [of 0 "x / u"] rhe_of_int [of 0] by simp
    then show ?thesis
      using pos u by (simp add: rnd_def Let_def u_def)
  qed
qed

lemma rnd_pos_eq:
  assumes "0 < x"
  shows "rnd x = of_int (round_half_even (x / power_int 2 (expo x - 52))) * power_int 2 (expo x - 52)"
  using assms by (simp add: rnd_def Let_def)

lemma scaled_bounds:
  assumes "0 < x"
  shows "2 ^ 52 \<le> x / power_int 2 (expo x - 52)" and "x / power_int 2 (expo x - 52) < 2 ^ 53"
proof -
  define u :: rat where "u = power_int 2 (expo x - 52)"
  have u: "0 < u" by (simp add: u_def)
  note b = expo_bounds [OF assms]
  have "power_int 2 (expo x) / u = power_int 2 (expo x - (expo x - 52))"
    unfolding u_def by (rule power_int_diff [symmetric]) simp
  then have lo: "power_int 2 (expo x) / u = 2 ^ 52" by simp
  have "power_int 2 (expo x + 1) / u = power_int 2 (expo x + 1 - (expo x - 52))"
    unfolding u_def by (rule power_int_diff [symmetric]) simp
  then have hi: "power_int 2 (expo x + 1) / u = 2 ^ 53" by simp
  have "power_int 2 (expo x) / u \<le> x / u"
    using b u by (intro divide_right_mono) auto
  with lo have "2 ^ 52 \<le> x / u" by linarith
  then show "2 ^ 52 \<le> x / power_int 2 (expo x - 52)"
    unfolding u_def .
  have "x / u < power_int 2 (expo x + 1) / u"
    using b u by (intro divide_strict_right_mono) auto
  with hi have "x / u < 2 ^ 53" by linarith
  then show "x / power_int 2 (expo x - 52) < 2 ^ 53"
    unfolding u_def .
qed

lemma rhe_scaled_bounds:
  assumes "0 < x"
  shows "2 ^ 52 \<le> round_half_even (x / power_int 2 (expo x - 52))"
    and "round_half_even (x / power_int 2 (expo x - 52)) \<le> 2 ^ 53"
proof -
  let ?s = "x / power_int 2 (expo x - 52)"
  have "round_half_even (of_int (2 ^ 52)) \<le> round_half_even ?s"
    using scaled_bounds(1) [OF assms] by (intro rhe_mono) simp
  then show "2 ^ 52 \<le> round_half_even ?s"
    by (simp only: rhe_of_int)
  have "round_half_even ?s \<le> round_half_even (of_int (2 ^ 53))"
    using scaled_bounds(2) [OF assms] by (intro rhe_mono) simp
  then show "round_half_even ?s \<le> 2 ^ 53"
    by (simp only: rhe_of_int)
qed

lemma rnd_bounds:
  assumes "0 < x"
  shows "power_int 2 (expo x) \<le> rnd x" and "rnd x \<le> power_int 2 (expo x + 1)"
proof -
  define u :: rat where "u = power_int 2 (expo x - 52)"
  define m where "m = round_half_even (x / u)"
  have u: "0 < u" by (simp add: u_def)
  have r: "rnd x = of_int m * u"
    using assms by (simp add: rnd_pos_eq m_def u_def)
  have m: "2 ^ 52 \<le> m" "m \<le> 2 ^ 53"
    using rhe_scaled_bounds [OF assms] by (simp_all add: m_def u_def)
  have lo: "power_int 2 (expo x) = 2 ^ 52 * u"
    using power_int_add [of "2::rat" 52 "expo x - 52"] by (simp add: u_def)
  have hi: "power_int 2 (expo x + 1) = 2 ^ 53 * u"
    using power_int_add [of "2::rat" 53 "expo x - 52"] by (simp add: u_def add.commute)
  have "(of_int (2 ^ 52) :: rat) \<le> of_int m" "(of_int m :: rat) \<le> of_int (2 ^ 53)"
    using m by (simp_all only: of_int_le_iff)
  then have "2 ^ 52 * u \<le> of_int m * u" "of_int m * u \<le> 2 ^ 53 * u"
    using u by (simp_all add: mult_right_mono)
  then show "power_int 2 (expo x) \<le> rnd x" and "rnd x \<le> power_int 2 (expo x + 1)"
    by (simp_all only: lo hi r)
qed

lemma rnd_mono:
  assumes "0 \<le> x" "x \<le> y"
  shows "rnd x \<le> rnd y"
proof (cases "x = 0")
  case True
  then show ?thesis using assms rnd_nonneg [of y] by (simp add: rnd_def)
next
  case False
  with assms have x: "0 < x" and y: "0 < y" by auto
  have le: "expo x \<le> expo y"
  proof (rule ccontr)
    assume "\<not> expo x \<le> expo y"
    then have "(power_int 2 (expo y + 1) :: rat) \<le> power_int 2 (expo x)"
      by (intro power_int_increasing) auto
    with expo_bounds [OF x] expo_bounds [OF y] assms show False by linarith
  qed
  show ?thesis
  proof (cases "expo x = expo y")
    case True
    define u :: rat where "u = power_int 2 (expo y - 52)"
    have u: "0 < u" by (simp add: u_def)
    have "x / u \<le> y / u" using assms u by (simp add: divide_right_mono)
    then have "round_half_even (x / u) \<le> round_half_even (y / u)" by (rule rhe_mono)
    then have "(of_int (round_half_even (x / u)) :: rat) * u \<le> of_int (round_half_even (y / u)) * u"
      using u by (simp add: mult_right_mono)
    then show ?thesis
      using x y True by (simp add: rnd_pos_eq u_def)
  next
    case False
    with le have "expo x + 1 \<le> expo y" by simp
    then have "(power_int 2 (expo x + 1) :: rat) \<le> power_int 2 (expo y)"
      by (intro power_int_increasing) auto
    with rnd_bounds(2) [OF x] rnd_bounds(1) [OF y] show ?thesis by linarith
  qed
qed

lemma rnd_repr_less:
  assumes "0 \<le> m" "m < 2 ^ 53"
  shows "rnd (of_int m * power_int 2 j) = of_int m * power_int 2 j"
proof (cases "m = 0")
  case True then show ?thesis by (simp add: rnd_def)
next
  case False
  with assms have m: "0 < m" by simp
  define x :: rat where "x = of_int m * power_int 2 j"
  have x: "0 < x" using m by (simp add: x_def)
  define u :: rat where "u = power_int 2 (expo x - 52)"
  have u: "0 < u" by (simp add: u_def)
  have lt: "x < power_int 2 (j + 53)"
  proof -
    have "(of_int m :: rat) < of_int (2 ^ 53)" using assms by (simp only: of_int_less_iff)
    then have "of_int m * power_int 2 j < (2 ^ 53 :: rat) * power_int 2 j"
      by (intro mult_strict_right_mono) auto
    also have "\<dots> = power_int 2 (j + 53)"
      using power_int_add [of "2::rat" 53 j] by (simp add: add.commute)
    finally show ?thesis by (simp add: x_def)
  qed
  have k: "expo x - 52 \<le> j"
  proof (rule ccontr)
    assume "\<not> expo x - 52 \<le> j"
    then have "j + 53 \<le> expo x" by simp
    then have "(power_int 2 (j + 53) :: rat) \<le> power_int 2 (expo x)"
      by (intro power_int_increasing) auto
    with lt expo_bounds [OF x] show False by linarith
  qed
  define k where "k = nat (j - (expo x - 52))"
  have "power_int 2 j = (power_int 2 (j - (expo x - 52)) :: rat) * power_int 2 (expo x - 52)"
    using power_int_add [of "2::rat" "j - (expo x - 52)" "expo x - 52"] by simp
  also have "(power_int 2 (j - (expo x - 52)) :: rat) = 2 ^ k"
    using k by (simp add: power_int_def k_def)
  finally have pj: "power_int 2 j = (2 ^ k :: rat) * u" by (simp add: u_def)
  have xs: "x / u = of_int (m * 2 ^ k)"
    using u by (simp add: x_def pj)
  have "rnd x = of_int (round_half_even (x / u)) * u"
    using x by (simp add: rnd_pos_eq u_def)
  also have "\<dots> = of_int (m * 2 ^ k) * u"
    by (simp only: xs rhe_of_int)
  also have "\<dots> = x"
    by (simp add: x_def pj)
  finally show ?thesis by (simp add: x_def)
qed

lemma rnd_repr:
  assumes "0 \<le> m" "m \<le> 2 ^ 53"
  shows "rnd (of_int m * power_int 2 j) = of_int m * power_int 2 j"
proof (cases "m = 2 ^ 53")
  case False
  with assms show ?thesis by (intro rnd_repr_less) auto
next
  case True
  have "(of_int m :: rat) * power_int 2 j = of_int (2 ^ 52) * power_int 2 (j + 1)"
    using power_int_add [of "2::rat" j 1] by (simp add: True)
  moreover have "rnd (of_int (2 ^ 52) * power_int 2 (j + 1)) = of_int (2 ^ 52) * power_int 2 (j + 1)"
    by (rule rnd_repr_less) simp_all
  ultimately show ?thesis by simp
qed

lemma rnd_idem_pos:
  assumes "0 \<le> x"
  shows "rnd (rnd x) = rnd x"
proof (cases "x = 0")
  case True then show ?thesis by (simp add: rnd_def)
next
  case False
  with assms have x: "0 < x" by simp
  have "0 \<le> round_half_even (x / power_int 2 (expo x - 52))"
    using rhe_scaled_bounds(1) [OF x] by simp
  then show ?thesis
    using rhe_scaled_bounds(2) [OF x] by (simp only: rnd_pos_eq [OF x] rnd_repr)
qed

lemma rnd_error:
  assumes "0 < x"
  shows "\<bar>rnd x - x\<bar> \<le> x / 2 ^ 53"
proof -
  define u :: rat where "u = power_int 2 (expo x - 52)"
  define m where "m = round_half_even (x / u)"
  have u: "0 < u" by (simp add: u_def)
  have r: "rnd x = of_int m * u"
    using assms by (simp add: rnd_pos_eq m_def u_def)
  have "\<bar>of_int m - x / u\<bar> \<le> 1 / 2"
    using rhe_lower [of "x / u"] rhe_upper [of "x / u"] unfolding m_def by linarith
  then have "\<bar>of_int m - x / u\<bar> * u \<le> 1 / 2 * u"
    using u by (intro mult_right_mono) auto
  moreover have "\<bar>of_int m - x / u\<bar> * u = \<bar>of_int m * u - x\<bar>"
  proof -
    have "\<bar>of_int m - x / u\<bar> * u = \<bar>(of_int m - x / u) * u\<bar>"
      using u by (simp add: abs_mult)
    also have "(of_int m - x / u) * u = of_int m * u - x"
      using u by (simp add: algebra_simps)
    finally show ?thesis .
  qed
  ultimately have e: "\<bar>rnd x - x\<bar> \<le> u / 2" by (simp add: r)
  have "2 ^ 52 * u \<le> x"
    using scaled_bounds(1) [OF assms] u by (simp add: u_def le_divide_eq)
  then have "u / 2 \<le> x / 2 ^ 53" by simp
  with e show ?thesis by linarith
qed

lemma rnd_minus: "rnd (- x) = - rnd x"
  by (simp add: rnd_def Let_def)

lemma rnd_idem: "rnd (rnd x) = rnd x"
proof (cases "0 \<le> x")
  case True then show ?thesis by (rule rnd_idem_pos)
next
  case False
  then have "0 \<le> - x" by simp
  then have "rnd (rnd (- x)) = rnd (- x)" by (rule rnd_idem_pos)
  then show ?thesis by (simp add: rnd_minus)
qed

lemma rnd_one: "rnd 1 = 1"
  using rnd_repr [of 1 0] by simp

lemma py_min_rnd:
  "rnd (py_min (rnd a) (rnd b)) = py_min (rnd a) (rnd b)"
  by (simp add: py_min_def rnd_idem)


section \<open>Counting words\<close>

lemma word_starts_dropWhile:
  "word_starts True cs = word_starts False (dropWhile (\<lambda>x. \<not> isspace x) cs)"
  by (induction cs) auto

lemma length_py_split: "length (py_split s) = spec_word_count s"
  unfolding spec_word_count_def
  by (induction s rule: py_split.induct) (auto simp: word_starts_dropWhile)


section \<open>The confidence heuristic\<close>

text \<open>
  Claim C1. For every question and context, the confidence heuristic returns 0.3 when the
  context is empty or is the placeholder of the missing knowledge base, and otherwise
  \<^verbatim>\<open>round(min(0.9, 0.5 + (context_word_count / 1000) * 0.4) * (0.9 if question_word_count > 10 else 1.0), 2)\<close>,
  the word counts being the numbers of whitespace-separated words: the function of the
  source and the function worded by the specification agree everywhere.
\<close>

theorem calculate_confidence_meets_spec:
  "calculate_confidence question context = spec_confidence question context"
  by (simp add: calculate_confidence_def spec_confidence_def Let_def length_py_split
      fmul_def fadd_def float_lit_def rnd_one py_min_rnd)


section \<open>The pipeline\<close>

lemma snd_classify_question:
  "snd (classify_question self q) = [LLM_call (classification_prompt_format q)]"
  by (simp add: classify_question_def Let_def split: sum.splits)

lemma answer_question_try_eq:
  "answer_question_try self q c =
     (case llm self (answer_prompt self q c) of
        Inl e \<Rightarrow>
          (Inl e,
           [LLM_call (classification_prompt_format q)] @ snd (get_relevant_context self q) @
           [LLM_call (answer_prompt self q c)])
      | Inr a \<Rightarrow>
          (Inr \<lparr>answer = py_strip a,
                confidence = calculate_confidence q (fst (get_relevant_context self q)),
                source = ''knowledge_base'',
                related_questions = fst (get_related_questions self q)\<rparr>,
           [LLM_call (classification_prompt_format q)] @ snd (get_relevant_context self q) @
           [LLM_call (answer_prompt self q c)] @ snd (get_related_questions self q)))"
  using snd_classify_question [of self q]
  by (simp add: answer_question_try_def answer_prompt_def Let_def split_beta split: sum.splits)

lemma answer_question_eq:
  "answer_question self q c =
     (case llm self (answer_prompt self q c) of
        Inl e \<Rightarrow>
          (error_response,
           [LLM_call (classification_prompt_format q)] @ snd (get_relevant_context self q) @
           [LLM_call (answer_prompt self q c)])
      | Inr a \<Rightarrow>
          (\<lparr>answer = py_strip a,
            confidence = calculate_confidence q (fst (get_relevant_context self q)),
            source = ''knowledge_base'',
            related_questions = fst (get_related_questions self q)\<rparr>,
           [LLM_call (classification_prompt_format q)] @ snd (get_relevant_context self q) @
           [LLM_call (answer_prompt self q c)] @ snd (get_related_questions self q)))"
  by (simp add: answer_question_def answer_question_try_eq split: sum.splits)

lemma get_relevant_context_no_index:
  "vectorstore self = None \<Longrightarrow> get_relevant_context self q = (''No knowledge base available.'', [])"
  by (simp add: get_relevant_context_def)

lemma get_related_questions_no_index:
  "vectorstore self = None \<Longrightarrow> get_related_questions self q = ([], [])"
  by (simp add: get_related_questions_def)

lemma calculate_confidence_placeholder:
  "calculate_confidence q ''No knowledge base available.'' = float_lit (3/10)"
  by (simp add: calculate_confidence_def)

text \<open>
  Claim C3. For every question and every context supplied by the caller, when no
  knowledge index exists and the completion service does not raise on the answer prompt,
  \<^verbatim>\<open>answer_question\<close> returns confidence exactly 0.3 and source \<^verbatim>\<open>"knowledge_base"\<close>, and
  it does call the completion service with the placeholder context: the calls it makes
  are the classification prompt and the answer prompt built from the placeholder, and
  the answer is the completion's text, stripped.
\<close>

theorem answer_question_without_index:
  assumes "vectorstore self = None"
    and "llm self
           (faq_prompt_format q
              (if c \<noteq> [] then c @ ''\<newline>\<newline>'' @ ''No knowledge base available.''
               else ''No knowledge base available.'')
              get_business_info) = Inr a"
  shows "answer_question self q c =
           (\<lparr>answer = py_strip a, confidence = float_lit (3/10),
             source = ''knowledge_base'', related_questions = []\<rparr>,
            [LLM_call (classification_prompt_format q),
             LLM_call
               (faq_prompt_format q
                  (if c \<noteq> [] then c @ ''\<newline>\<newline>'' @ ''No knowledge base available.''
                   else ''No knowledge base available.'')
                  get_business_info)])"
proof -
  have p: "answer_prompt self q c =
      faq_prompt_format q
        (if c \<noteq> [] then c @ ''\<newline>\<newline>'' @ ''No knowledge base available.''
         else ''No knowledge base available.'')
        get_business_info"
    using assms(1) by (simp add: answer_prompt_def get_relevant_context_no_index)
  show ?thesis
    using assms(2)
    by (simp only: answer_question_eq p get_relevant_context_no_index [OF assms(1)]
        get_related_questions_no_index [OF assms(1)] calculate_confidence_placeholder
        sum.case fst_conv snd_conv append_Nil append_Cons append_Nil2)
qed

lemma py_strip_example:
  "py_strip '' We are open Monday to Friday. '' = ''We are open Monday to Friday.''"
  by (simp add: py_strip_def isspace_def)

theorem answer_question_without_index_witness:
  "vectorstore \<lparr>llm = llm_up, vectorstore = None\<rparr> = None \<and>
   llm \<lparr>llm = llm_up, vectorstore = None\<rparr>
     (faq_prompt_format ''When are you open?'' ''No knowledge base available.'' get_business_info)
     = Inr '' We are open Monday to Friday. '' \<and>
   answer_question \<lparr>llm = llm_up, vectorstore = None\<rparr> ''When are you open?'' [] =
     (\<lparr>answer = ''We are open Monday to Friday.'', confidence = float_lit (3/10),
       source = ''knowledge_base'', related_questions = []\<rparr>,
      [LLM_call (classification_prompt_format ''When are you open?''),
       LLM_call (faq_prompt_format ''When are you open?'' ''No knowledge base available.''
                   get_business_info)])"
  using answer_question_without_index
    [where self = "\<lparr>llm = llm_up, vectorstore = None\<rparr>" and c = "[]"
       and q = "''When are you open?''" and a = "'' We are open Monday to Friday. ''"]
  by (simp add: llm_up_def py_strip_example)

text \<open>
  Claim C8. For every question, if the classification call to the completion service
  raises, the classification step returns the label \<^verbatim>\<open>"general"\<close>, and \<^verbatim>\<open>answer_question\<close>
  goes on to retrieval and to the answering step: after the classification prompt its
  calls are those of the retrieval and then the answer prompt, and it ends in the error
  response only if the completion call for the answer raises.
\<close>

theorem classification_failure_continues:
  assumes "llm self (classification_prompt_format q) = Inl e"
  shows "classify_question self q = (''general'', [LLM_call (classification_prompt_format q)]) \<and>
         take (length (snd (get_relevant_context self q)) + 2) (snd (answer_question self q c)) =
           [LLM_call (classification_prompt_format q)] @ snd (get_relevant_context self q) @
           [LLM_call (answer_prompt self q c)] \<and>
         (fst (answer_question self q c) = error_response
            \<longleftrightarrow> (\<exists>e'. llm self (answer_prompt self q c) = Inl e'))"
proof -
  have 1: "classify_question self q = (''general'', [LLM_call (classification_prompt_format q)])"
    using assms by (simp add: classify_question_def Let_def)
  have 2: "take (length (snd (get_relevant_context self q)) + 2) (snd (answer_question self q c)) =
           [LLM_call (classification_prompt_format q)] @ snd (get_relevant_context self q) @
           [LLM_call (answer_prompt self q c)]"
    by (cases "llm self (answer_prompt self q c)") (simp_all add: answer_question_eq)
  have 3: "fst (answer_question self q c) = error_response
            \<longleftrightarrow> (\<exists>e'. llm self (answer_prompt self q c) = Inl e')"
    by (cases "llm self (answer_prompt self q c)")
       (simp_all add: answer_question_eq error_response_def)
  from 1 2 3 show ?thesis by blast
qed

lemma nth_classification_prompt: "classification_prompt_format q ! 13 = CHR ''C''"
  by (simp add: classification_prompt_format_def)

lemma nth_faq_prompt: "faq_prompt_format q c b ! 13 = CHR ''Y''"
  by (simp add: faq_prompt_format_def)

lemma nth_answer_prompt: "answer_prompt self q c ! 13 = CHR ''Y''"
  by (simp add: answer_prompt_def Let_def nth_faq_prompt)

theorem classification_failure_continues_witness:
  "llm \<lparr>llm = llm_classify_down, vectorstore = None\<rparr>
     (classification_prompt_format ''When are you open?'') = Inl (Error ''timeout'') \<and>
   classify_question \<lparr>llm = llm_classify_down, vectorstore = None\<rparr> ''When are you open?'' =
     (''general'', [LLM_call (classification_prompt_format ''When are you open?'')]) \<and>
   snd (answer_question \<lparr>llm = llm_classify_down, vectorstore = None\<rparr> ''When are you open?'' []) =
     [LLM_call (classification_prompt_format ''When are you open?''),
      LLM_call (answer_prompt \<lparr>llm = llm_classify_down, vectorstore = None\<rparr> ''When are you open?'' [])] \<and>
   fst (answer_question \<lparr>llm = llm_classify_down, vectorstore = None\<rparr> ''When are you open?'' [])
     \<noteq> error_response"
  using classification_failure_continues
    [where self = "\<lparr>llm = llm_classify_down, vectorstore = None\<rparr>"
       and q = "''When are you open?''" and c = "[]" and e = "Error ''timeout''"]
  by (simp add: llm_classify_down_def nth_classification_prompt nth_answer_prompt
      get_relevant_context_no_index answer_question_eq get_related_questions_no_index)


section \<open>The error path\<close>

text \<open>
  Claim C2 says that whenever any step of \<^verbatim>\<open>answer_question\<close> raises, in particular
  whenever the completion service raises, the fixed apology response is returned. It
  fails as stated: here the completion service raises on the classification prompt and
  the similarity search raises during retrieval, both exceptions are caught inside their
  steps, and the response is an ordinary one with source \<^verbatim>\<open>"knowledge_base"\<close>.
\<close>

theorem caught_exceptions_counterexample:
  "llm \<lparr>llm = llm_classify_down, vectorstore = Some store_broken\<rparr>
     (classification_prompt_format ''When are you open?'') = Inl (Error ''timeout'') \<and>
   similarity_search store_broken ''When are you open?'' 3 = Inl (Error ''index unreadable'') \<and>
   source (fst (answer_question \<lparr>llm = llm_classify_down, vectorstore = Some store_broken\<rparr>
                  ''When are you open?'' [])) = ''knowledge_base'' \<and>
   fst (answer_question \<lparr>llm = llm_classify_down, vectorstore = Some store_broken\<rparr>
          ''When are you open?'' []) \<noteq> error_response"
  by (simp add: llm_classify_down_def nth_classification_prompt nth_answer_prompt
      answer_question_eq store_broken_def error_response_def)

text \<open>
  Claim C2, as amended. \<^verbatim>\<open>answer_question\<close> returns exactly the fixed apology answer,
  confidence 0.0, source \<^verbatim>\<open>"error"\<close> and no related questions whenever the completion call
  that generates the answer raises, and only then: this is the one exception that reaches
  its handler, and no partial result is returned with it.
\<close>

theorem error_response_iff_answer_completion_raises:
  "(\<exists>e. llm self (answer_prompt self q c) = Inl e) \<longleftrightarrow>
     fst (answer_question self q c) = error_response"
  by (cases "llm self (answer_prompt self q c)")
     (simp_all add: answer_question_eq error_response_def)

theorem error_response_iff_answer_completion_raises_witness:
  "llm \<lparr>llm = llm_down, vectorstore = Some store_two\<rparr>
     (answer_prompt \<lparr>llm = llm_down, vectorstore = Some store_two\<rparr> ''When are you open?'' [])
     = Inl (Error ''timeout'') \<and>
   fst (answer_question \<lparr>llm = llm_down, vectorstore = Some store_two\<rparr> ''When are you open?'' []) =
     \<lparr>answer = ''I apologize, but I'm having trouble processing your question. Please contact our support team for assistance.'',
      confidence = 0, source = ''error'', related_questions = []\<rparr>"
  using error_response_iff_answer_completion_raises
    [where self = "\<lparr>llm = llm_down, vectorstore = Some store_two\<rparr>"
       and q = "''When are you open?''" and c = "[]"]
  by (simp add: llm_down_def error_response_def)

section \<open>Adding an entry\<close>

lemma dirname_faq_file: "dirname ''data/knowledge_base/faq.txt'' = ''data/knowledge_base''"
  by (simp add: dirname_def)

lemma load_knowledge_base_caught:
  "load_knowledge_base_try env w = (Inl e, w') \<Longrightarrow>
   load_knowledge_base env self w = (self\<lparr>vectorstore := None\<rparr>, w')"
  by (simp add: load_knowledge_base_def)

text \<open>
  Claim C10. \<^verbatim>\<open>add_faq_entry\<close> returns a boolean: \<open>False\<close> if appending the entry to the FAQ
  file (creating the directory, opening the file and writing) raises, and \<open>True\<close>
  otherwise. It is \<open>True\<close> also when the reload that follows fails inside: then
  \<^verbatim>\<open>load_knowledge_base\<close> has caught the exception and left the index \<open>None\<close>.
\<close>

theorem add_faq_entry_result:
  assumes "os_makedirs env ''data/knowledge_base'' w = (r1, w1)"
    and "file_append env ''data/knowledge_base/faq.txt'' (faq_entry_format q a cat) w1 = (r2, w2)"
  shows "fst (add_faq_entry env self q a cat w) = (\<not> isl r1 \<and> \<not> isl r2) \<and>
         (\<not> isl r1 \<and> \<not> isl r2 \<longrightarrow>
            (\<forall>e w3. load_knowledge_base_try env w2 = (Inl e, w3) \<longrightarrow>
               add_faq_entry env self q a cat w = (True, self\<lparr>vectorstore := None\<rparr>, w3)))"
  using assms
  by (cases r1; cases r2)
     (auto simp: add_faq_entry_def Let_def dirname_faq_file load_knowledge_base_def split_beta)

theorem add_faq_entry_result_witness:
  "os_makedirs env_embedding_down ''data/knowledge_base'' () = (Inr (), ()) \<and>
   file_append env_embedding_down ''data/knowledge_base/faq.txt''
     (faq_entry_format ''Do you ship abroad?'' ''Yes.'' ''general'') () = (Inr (), ()) \<and>
   load_knowledge_base_try env_embedding_down () =
     (Inl (Error ''embedding service unavailable''), ()) \<and>
   add_faq_entry env_embedding_down \<lparr>llm = llm_up, vectorstore = Some store_two\<rparr>
     ''Do you ship abroad?'' ''Yes.'' ''general'' () =
     (True, \<lparr>llm = llm_up, vectorstore = None\<rparr>, ())"
  using add_faq_entry_result
    [where env = env_embedding_down and w = "()" and ?r1.0 = "Inr ()" and ?w1.0 = "()"
       and ?r2.0 = "Inr ()" and ?w2.0 = "()" and q = "''Do you ship abroad?''" and a = "''Yes.''"
       and cat = "''general''" and self = "\<lparr>llm = llm_up, vectorstore = Some store_two\<rparr>"]
  by (simp add: env_embedding_down_def load_knowledge_base_try_def kb_dir_def faq_files_def
      chunk_hours_def)

section \<open>Related questions\<close>

lemma in_set_dropWhile: "x \<in> set xs \<Longrightarrow> \<not> P x \<Longrightarrow> x \<in> set (dropWhile P xs)"
  by (induction xs) auto

lemma question_mark_not_space: "\<not> isspace CHR ''?''"
  by (simp add: isspace_def)

lemma in_set_py_strip: "x \<in> set s \<Longrightarrow> \<not> isspace x \<Longrightarrow> x \<in> set (py_strip s)"
  by (simp add: py_strip_def in_set_dropWhile)

lemma split_on_subset: "s \<in> set (split_on sep xs) \<Longrightarrow> set s \<subseteq> set xs"
proof (induction xs arbitrary: s)
  case Nil
  then show ?case by simp
next
  case (Cons c cs)
  show ?case
  proof (cases "c = sep")
    case True
    with Cons show ?thesis by auto
  next
    case False
    obtain w ws where ws: "split_on sep cs = w # ws"
      by (cases cs; cases "split_on sep cs"; simp split: if_splits list.splits)
    with False Cons.prems have "s = c # w \<or> s \<in> set ws" by auto
    then show ?thesis
      using Cons.IH [of w] Cons.IH [of s] ws by auto
  qed
qed

lemma question_sentences_no_mark:
  "CHR ''?'' \<notin> set content \<Longrightarrow> question_sentences content = []"
  using split_on_subset [of _ "CHR ''.''" content]
  by (auto simp: question_sentences_def filter_empty_conv)

lemma question_sentences_elem:
  "s \<in> set (question_sentences content) \<Longrightarrow> CHR ''?'' \<in> set s \<and> 10 < length s"
  by (auto simp: question_sentences_def in_set_py_strip question_mark_not_space)

lemma related_from_sentences_eq:
  "related_from_sentences sentences related =
     related @ take (max 1 (3 - length related))
       (map py_strip
          (filter (\<lambda>sentence. CHR ''?'' \<in> set sentence \<and> 10 < length (py_strip sentence))
             sentences))"
proof (induction sentences arbitrary: related)
  case Nil
  then show ?case by simp
next
  case (Cons s ss)
  show ?case
  proof (cases "CHR ''?'' \<in> set s \<and> 10 < length (py_strip s)")
    case False
    then show ?thesis using Cons.IH [of related] by auto
  next
    case True
    show ?thesis
    proof (cases "3 \<le> length (related @ [py_strip s])")
      case True
      then have "max 1 (3 - length related) = 1" by simp
      with True \<open>CHR ''?'' \<in> set s \<and> 10 < length (py_strip s)\<close> show ?thesis
        by (simp add: Let_def)
    next
      case False
      then have m: "max 1 (3 - length (related @ [py_strip s])) = 2 - length related"
        "max 1 (3 - length related) = Suc (2 - length related)"
        by auto
      have "related_from_sentences (s # ss) related =
          related_from_sentences ss (related @ [py_strip s])"
        using False \<open>CHR ''?'' \<in> set s \<and> 10 < length (py_strip s)\<close> by (simp add: Let_def)
      also note Cons.IH [of "related @ [py_strip s]"]
      finally show ?thesis
        using \<open>CHR ''?'' \<in> set s \<and> 10 < length (py_strip s)\<close> by (simp only: m) simp
    qed
  qed
qed

lemma take_append_take:
  "take 3 ((related @ take (max 1 (3 - length related)) xs) @ ys) = take 3 (related @ xs @ ys)"
  by (cases "length related < 3") (auto simp: max_def min_def take_Cons' not_less)

lemma related_from_docs_eq:
  "take 3 (related_from_docs docs related) =
     take 3 (related @ concat (map (\<lambda>doc. question_sentences (page_content doc)) docs))"
proof (induction docs arbitrary: related)
  case Nil
  then show ?case by simp
next
  case (Cons d ds)
  show ?case
  proof (cases "CHR ''?'' \<in> set (page_content d)")
    case False
    then show ?thesis
      using Cons.IH [of related] by (simp add: question_sentences_no_mark)
  next
    case True
    let ?rest = "concat (map (\<lambda>doc. question_sentences (page_content doc)) ds)"
    have "take 3 (related_from_docs (d # ds) related) =
        take 3 (related_from_docs ds
                  (related_from_sentences (split_on CHR ''.'' (page_content d)) related))"
      using True by simp
    also have "\<dots> =
        take 3 (related_from_sentences (split_on CHR ''.'' (page_content d)) related @ ?rest)"
      by (rule Cons.IH)
    also have "\<dots> =
        take 3 ((related @ take (max 1 (3 - length related)) (question_sentences (page_content d)))
                @ ?rest)"
      by (simp only: related_from_sentences_eq question_sentences_def)
    also have "\<dots> = take 3 (related @ question_sentences (page_content d) @ ?rest)"
      by (rule take_append_take)
    finally show ?thesis by simp
  qed
qed

lemma get_related_questions_spec:
  "fst (get_related_questions self q) =
     (case vectorstore self of
        None \<Rightarrow> []
      | Some vs \<Rightarrow>
          (case similarity_search vs q 5 of
             Inr docs \<Rightarrow> spec_related_questions docs
           | Inl e \<Rightarrow> []))"
  using related_from_docs_eq [of _ "[]"]
  by (simp add: get_related_questions_def spec_related_questions_def
      split: option.splits sum.splits)

lemma spec_related_questions_props:
  "length (spec_related_questions docs) \<le> 3"
  "s \<in> set (spec_related_questions docs) \<Longrightarrow> CHR ''?'' \<in> set s \<and> 10 < length s"
proof -
  show "length (spec_related_questions docs) \<le> 3"
    by (simp add: spec_related_questions_def)
  assume "s \<in> set (spec_related_questions docs)"
  then have "s \<in> set (concat (map (\<lambda>doc. question_sentences (page_content doc)) docs))"
    unfolding spec_related_questions_def by (rule in_set_takeD)
  then obtain d where "d \<in> set docs" "s \<in> set (question_sentences (page_content d))" by auto
  then show "CHR ''?'' \<in> set s \<and> 10 < length s" by (simp add: question_sentences_elem)
qed

lemma related_questions_of_answer:
  "related_questions (fst (answer_question self q c)) = [] \<or>
   (\<exists>vs docs. vectorstore self = Some vs \<and> similarity_search vs q 5 = Inr docs \<and>
      related_questions (fst (answer_question self q c)) = spec_related_questions docs)"
  by (cases "llm self (answer_prompt self q c)")
     (auto simp: answer_question_eq error_response_def get_related_questions_spec
        split: option.splits sum.splits)

text \<open>
  Claim C4. For every question and every state of the knowledge index, the related
  questions returned by \<^verbatim>\<open>answer_question\<close> are at most 3, each contains a question mark and
  is longer than 10 characters, and the list is empty or consists of the first three
  qualifying sentences (split at periods, stripped) of the chunks that the search with
  \<open>k = 5\<close> returned, in chunk order.
\<close>

theorem related_questions_bounded:
  "length (related_questions (fst (answer_question self q c))) \<le> 3 \<and>
   (\<forall>s \<in> set (related_questions (fst (answer_question self q c))).
      CHR ''?'' \<in> set s \<and> 10 < length s) \<and>
   (related_questions (fst (answer_question self q c)) = [] \<or>
    (\<exists>vs docs. vectorstore self = Some vs \<and> similarity_search vs q 5 = Inr docs \<and>
       related_questions (fst (answer_question self q c)) = spec_related_questions docs))"
  using related_questions_of_answer [of self q c] spec_related_questions_props
  by auto

lemma related_questions_example:
  "related_questions
     (fst (answer_question \<lparr>llm = llm_up, vectorstore = Some store_two\<rparr> ''Do you ship abroad?'' []))
   = [''Q: What are your business hours? A: Monday through Friday'',
      ''Q: Do you ship abroad? A: Yes'',
      ''Q: Is support included? A: Always'']"
  by (simp add: answer_question_eq llm_up_def get_related_questions_def store_two_def
      chunk_hours_def chunk_billing_def py_strip_def isspace_def Let_def)

theorem related_questions_bounded_witness:
  "related_questions
     (fst (answer_question \<lparr>llm = llm_up, vectorstore = Some store_two\<rparr> ''Do you ship abroad?'' []))
   = [''Q: What are your business hours? A: Monday through Friday'',
      ''Q: Do you ship abroad? A: Yes'',
      ''Q: Is support included? A: Always''] \<and>
   CHR ''?'' \<in> set ''Q: Is support included? A: Always'' \<and>
   10 < length ''Q: Is support included? A: Always''"
  using related_questions_bounded
    [where self = "\<lparr>llm = llm_up, vectorstore = Some store_two\<rparr>"
       and q = "''Do you ship abroad?''" and c = "[]"]
  by (simp add: related_questions_example)


section \<open>The confidence heuristic on floats\<close>

lemma float_lit_values:
  "float_lit (3/10) = 5404319552844595 / 18014398509481984"
  "float_lit (9/10) = 8106479329266893 / 9007199254740992"
  "float_lit (4/10) = 3602879701896397 / 9007199254740992"
  "float_lit (1/2) = 1/2"
  by code_simp+

lemma py_round_cap: "py_round (float_lit (9/10)) 2 = float_lit (9/10)"
  by code_simp

lemma confidence_four_words:
  "py_round (py_min (float_lit (9/10))
      (fadd (float_lit (1/2)) (fmul (true_div 4 1000) (float_lit (4/10))))) 2 = 1/2"
  "py_round (fmul (py_min (float_lit (9/10))
      (fadd (float_lit (1/2)) (fmul (true_div 4 1000) (float_lit (4/10))))) (float_lit (9/10))) 2
   = float_lit (45/100)"
  "float_lit (45/100) = 8106479329266893 / 18014398509481984"
  by code_simp+

lemma base_thousand:
  "fadd (float_lit (1/2)) (fmul (true_div 1000 1000) (float_lit (4/10))) = float_lit (9/10)"
  by code_simp

lemma word_count_error_text:
  "length (py_split ''Error retrieving relevant information.'') = 4"
  by (simp add: length_py_split spec_word_count_def isspace_def)

lemma float_lit_nonneg: "0 \<le> q \<Longrightarrow> 0 \<le> float_lit q"
  unfolding float_lit_def by (rule rnd_nonneg)


lemma py_round_mono:
  assumes "0 \<le> x" "x \<le> y"
  shows "py_round x 2 \<le> py_round y 2"
proof -
  have "round_half_even (x * 10 ^ 2) \<le> round_half_even (y * 10 ^ 2)"
    using assms by (intro rhe_mono) simp
  moreover have "0 \<le> round_half_even (x * 10 ^ 2)"
    using rhe_mono [of 0 "x * 10 ^ 2"] rhe_of_int [of 0] assms by simp
  ultimately have "(0::rat) \<le> of_int (round_half_even (x * 10 ^ 2)) / 10 ^ 2"
    and "(of_int (round_half_even (x * 10 ^ 2)) :: rat) / 10 ^ 2
           \<le> of_int (round_half_even (y * 10 ^ 2)) / 10 ^ 2"
    by (simp_all add: divide_right_mono)
  then show ?thesis
    unfolding py_round_def by (rule rnd_mono)
qed

lemma py_round_nonneg: "0 \<le> x \<Longrightarrow> 0 \<le> py_round x 2"
proof -
  assume "0 \<le> x"
  then have "0 \<le> round_half_even (x * 10 ^ 2)"
    using rhe_mono [of 0 "x * 10 ^ 2"] rhe_of_int [of 0] by simp
  then have "(0::rat) \<le> of_int (round_half_even (x * 10 ^ 2)) / 10 ^ 2" by simp
  then show ?thesis unfolding py_round_def by (rule rnd_nonneg)
qed

lemma scaled_words_nonneg: "0 \<le> fmul (true_div (int n) 1000) (float_lit (4/10))"
proof -
  have "0 \<le> true_div (int n) 1000"
    unfolding true_div_def by (rule rnd_nonneg) simp
  then show ?thesis
    unfolding fmul_def by (intro rnd_nonneg mult_nonneg_nonneg float_lit_nonneg) simp_all
qed

lemma scaled_words_mono:
  assumes "m \<le> n"
  shows "fmul (true_div (int m) 1000) (float_lit (4/10)) \<le> fmul (true_div (int n) 1000) (float_lit (4/10))"
proof -
  have 0: "0 \<le> true_div (int m) 1000"
    unfolding true_div_def by (rule rnd_nonneg) simp
  have "true_div (int m) 1000 \<le> true_div (int n) 1000"
    unfolding true_div_def using assms by (intro rnd_mono) (simp_all add: divide_right_mono)
  then have "true_div (int m) 1000 * float_lit (4/10) \<le> true_div (int n) 1000 * float_lit (4/10)"
    by (intro mult_right_mono float_lit_nonneg) simp_all
  moreover have "0 \<le> true_div (int m) 1000 * float_lit (4/10)"
    using 0 by (intro mult_nonneg_nonneg float_lit_nonneg) simp_all
  ultimately show ?thesis
    unfolding fmul_def by (intro rnd_mono)
qed

lemma base_confidence_mono:
  assumes "m \<le> n"
  shows "py_min (float_lit (9/10))
           (fadd (float_lit (1/2)) (fmul (true_div (int m) 1000) (float_lit (4/10))))
       \<le> py_min (float_lit (9/10))
           (fadd (float_lit (1/2)) (fmul (true_div (int n) 1000) (float_lit (4/10))))"
proof -
  have "fadd (float_lit (1/2)) (fmul (true_div (int m) 1000) (float_lit (4/10)))
      \<le> fadd (float_lit (1/2)) (fmul (true_div (int n) 1000) (float_lit (4/10)))"
    unfolding fadd_def
    using scaled_words_mono [OF assms] scaled_words_nonneg [of m]
    by (intro rnd_mono) (simp_all add: float_lit_values)
  then show ?thesis by (simp add: py_min_def)
qed

lemma base_confidence_bounds:
  "1/2 \<le> py_min (float_lit (9/10))
            (fadd (float_lit (1/2)) (fmul (true_div (int n) 1000) (float_lit (4/10))))"
  "py_min (float_lit (9/10))
     (fadd (float_lit (1/2)) (fmul (true_div (int n) 1000) (float_lit (4/10)))) \<le> float_lit (9/10)"
proof -
  have "rnd (1/2) \<le> fadd (float_lit (1/2)) (fmul (true_div (int n) 1000) (float_lit (4/10)))"
    unfolding fadd_def using scaled_words_nonneg [of n]
    by (intro rnd_mono) (simp_all add: float_lit_values)
  moreover have "rnd (1/2) = 1/2"
    using float_lit_values(4) by (simp add: float_lit_def)
  ultimately show "1/2 \<le> py_min (float_lit (9/10))
            (fadd (float_lit (1/2)) (fmul (true_div (int n) 1000) (float_lit (4/10))))"
    by (simp add: py_min_def float_lit_values)
  show "py_min (float_lit (9/10))
     (fadd (float_lit (1/2)) (fmul (true_div (int n) 1000) (float_lit (4/10)))) \<le> float_lit (9/10)"
    by (simp add: py_min_def)
qed

lemma base_confidence_cap:
  assumes "1000 \<le> n"
  shows "py_min (float_lit (9/10))
           (fadd (float_lit (1/2)) (fmul (true_div (int n) 1000) (float_lit (4/10))))
         = float_lit (9/10)"
proof -
  have "fadd (float_lit (1/2)) (fmul (true_div (int 1000) 1000) (float_lit (4/10)))
      \<le> fadd (float_lit (1/2)) (fmul (true_div (int n) 1000) (float_lit (4/10)))"
    unfolding fadd_def
    using scaled_words_mono [OF assms] scaled_words_nonneg [of 1000]
    by (intro rnd_mono) (simp_all add: float_lit_values)
  then show ?thesis
    using base_thousand by (simp add: py_min_def)
qed

lemma calculate_confidence_words:
  assumes "c \<noteq> []" "c \<noteq> ''No knowledge base available.''"
  shows "calculate_confidence q c =
     py_round
       (if 10 < length (py_split q)
        then fmul (py_min (float_lit (9/10))
               (fadd (float_lit (1/2)) (fmul (true_div (int (length (py_split c))) 1000) (float_lit (4/10)))))
               (float_lit (9/10))
        else py_min (float_lit (9/10))
               (fadd (float_lit (1/2)) (fmul (true_div (int (length (py_split c))) 1000) (float_lit (4/10)))))
       2"
  using assms by (simp add: calculate_confidence_def Let_def)

lemma rnd_strict:
  assumes "0 \<le> x" "x + 1/100 \<le> y" "y \<le> 1"
  shows "rnd x < rnd y"
proof -
  have y: "0 < y" and x1: "x \<le> 1" using assms by linarith+
  have "y / 2 ^ 53 \<le> 1 / 2 ^ 53"
    using assms by (intro divide_right_mono) simp_all
  with rnd_error [OF y] have ly: "y - 1 / 2 ^ 53 \<le> rnd y" by linarith
  have small: "(1::rat) / 2 ^ 53 < 1 / 400" by simp
  show ?thesis
  proof (cases "x = 0")
    case True
    then have "rnd x = 0" by (simp add: rnd_def)
    with ly assms True small show ?thesis by linarith
  next
    case False
    with assms have x: "0 < x" by simp
    have "x / 2 ^ 53 \<le> 1 / 2 ^ 53"
      using x1 by (intro divide_right_mono) simp_all
    with rnd_error [OF x] have "rnd x \<le> x + 1 / 2 ^ 53" by linarith
    with ly assms small show ?thesis by linarith
  qed
qed

lemma py_round_strict:
  assumes "1/2 \<le> b" "b \<le> float_lit (9/10)"
  shows "py_round (fmul b (float_lit (9/10))) 2 < py_round b 2"
proof -
  define x where "x = fmul b (float_lit (9/10))"
  define p where "p = b * float_lit (9/10)"
  have b1: "b \<le> 901 / 1000" using assms by (simp add: float_lit_values)
  have c9: "float_lit (9/10) \<le> 901 / 1000" "0 < float_lit (9/10)"
    by (simp_all add: float_lit_values)
  have p0: "0 < p"
    unfolding p_def using assms c9 by (intro mult_pos_pos) linarith+
  have p1: "p \<le> b * (901 / 1000)"
    unfolding p_def using assms c9 by (intro mult_left_mono) linarith+
  have p2: "p \<le> 1" using p1 b1 by linarith
  have "p / 2 ^ 53 \<le> 1 / 2 ^ 53"
    using p2 by (intro divide_right_mono) simp_all
  with rnd_error [OF p0] have xu: "x \<le> p + 1 / 2 ^ 53"
    unfolding x_def fmul_def p_def by linarith
  have x0: "0 \<le> x"
    unfolding x_def fmul_def using p0 by (intro rnd_nonneg) (simp add: p_def)
  define k' where "k' = round_half_even (x * 10 ^ 2)"
  define k where "k = round_half_even (b * 10 ^ 2)"
  have "round_half_even (of_int 0) \<le> round_half_even (x * 10 ^ 2)"
    using x0 by (intro rhe_mono) simp
  then have k'0: "0 \<le> k'"
    by (simp only: rhe_of_int k'_def)
  have "round_half_even (b * 10 ^ 2) \<le> round_half_even (of_int 100)"
    using b1 by (intro rhe_mono) simp
  then have k100: "k \<le> 100"
    by (simp only: rhe_of_int k_def)
  have small: "(1::rat) / 2 ^ 53 < 1 / 10000" by simp
  have u: "of_int k' \<le> x * 100 + 1 / 2"
    using rhe_upper [of "x * 10 ^ 2"] by (simp add: k'_def)
  have l: "b * 100 - 1 / 2 \<le> of_int k"
    using rhe_lower [of "b * 10 ^ 2"] by (simp add: k_def)
  have "(of_int k' :: rat) + 1 \<le> of_int k"
    using u l xu p1 assms(1) small by linarith
  then have "(of_int k' :: rat) / 10 ^ 2 + 1 / 100 \<le> of_int k / 10 ^ 2" by simp
  moreover have "(0::rat) \<le> of_int k' / 10 ^ 2" using k'0 by simp
  moreover have "(of_int k :: rat) / 10 ^ 2 \<le> 1" using k100 by simp
  ultimately have "rnd (of_int k' / 10 ^ 2) < rnd (of_int k / 10 ^ 2)"
    by (intro rnd_strict)
  then show ?thesis
    by (simp only: py_round_def x_def k_def k'_def)
qed

lemma fmul_nonneg: "0 \<le> x * y \<Longrightarrow> 0 \<le> fmul x y"
  by (simp add: fmul_def rnd_nonneg)

lemma fmul_le_float_lit:
  "0 \<le> x * y \<Longrightarrow> x * y \<le> float_lit q \<Longrightarrow> fmul x y \<le> float_lit q"
  using rnd_mono [of "x * y" "float_lit q"] by (simp add: fmul_def float_lit_def rnd_idem)

lemma calculate_confidence_bounds:
  "0 \<le> calculate_confidence q c" "calculate_confidence q c \<le> float_lit (9/10)"
proof -
  let ?b = "py_min (float_lit (9/10))
     (fadd (float_lit (1/2)) (fmul (true_div (int (length (py_split c))) 1000) (float_lit (4/10))))"
  have b: "1/2 \<le> ?b" "?b \<le> float_lit (9/10)"
    by (rule base_confidence_bounds)+
  have c9: "0 \<le> float_lit (9/10)" "float_lit (9/10) \<le> 1"
    by (simp_all add: float_lit_values)
  have b0: "0 \<le> ?b" "?b \<le> 1" using b c9 by linarith+
  have 0: "0 \<le> ?b * float_lit (9/10)"
    using b0 c9 by (intro mult_nonneg_nonneg)
  have m0: "0 \<le> fmul ?b (float_lit (9/10))"
    using 0 by (rule fmul_nonneg)
  have "?b * float_lit (9/10) \<le> 1 * float_lit (9/10)"
    using b0 c9 by (intro mult_right_mono)
  then have "?b * float_lit (9/10) \<le> float_lit (9/10)" by simp
  then have m1: "fmul ?b (float_lit (9/10)) \<le> float_lit (9/10)"
    using 0 by (intro fmul_le_float_lit)
  have r1: "0 \<le> py_round ?b 2" using b0 by (intro py_round_nonneg)
  have r2: "0 \<le> py_round (fmul ?b (float_lit (9/10))) 2" using m0 by (intro py_round_nonneg)
  have r3: "py_round ?b 2 \<le> float_lit (9/10)"
    using py_round_mono [OF b0(1) b(2)] by (simp only: py_round_cap)
  have r4: "py_round (fmul ?b (float_lit (9/10))) 2 \<le> float_lit (9/10)"
    using py_round_mono [OF m0 m1] by (simp only: py_round_cap)
  have l3: "0 \<le> float_lit (3/10)" "float_lit (3/10) \<le> float_lit (9/10)"
    by (simp_all add: float_lit_values)
  show "0 \<le> calculate_confidence q c"
  proof (cases "c = [] \<or> c = ''No knowledge base available.''")
    case True
    then have "calculate_confidence q c = float_lit (3/10)"
      by (auto simp: calculate_confidence_def)
    with l3 show ?thesis by simp
  next
    case False
    then have "calculate_confidence q c = py_round ?b 2 \<or>
        calculate_confidence q c = py_round (fmul ?b (float_lit (9/10))) 2"
      by (simp add: calculate_confidence_words)
    with r1 r2 show ?thesis by auto
  qed
  show "calculate_confidence q c \<le> float_lit (9/10)"
  proof (cases "c = [] \<or> c = ''No knowledge base available.''")
    case True
    then have "calculate_confidence q c = float_lit (3/10)"
      by (auto simp: calculate_confidence_def)
    with l3 show ?thesis by simp
  next
    case False
    then have "calculate_confidence q c = py_round ?b 2 \<or>
        calculate_confidence q c = py_round (fmul ?b (float_lit (9/10))) 2"
      by (simp add: calculate_confidence_words)
    with r3 r4 show ?thesis by auto
  qed
qed

text \<open>
  Claim C6. For every fixed question of at most 10 words and two contexts that are not
  empty and not the placeholder, the first with no more words than the second, the
  confidence of the first is at most that of the second. It never exceeds the cap 0.9,
  and reaches it from 1000 words on.
\<close>

theorem confidence_monotone_in_context:
  assumes "length (py_split q) \<le> 10"
    and "a \<noteq> []" "a \<noteq> ''No knowledge base available.''"
    and "b \<noteq> []" "b \<noteq> ''No knowledge base available.''"
    and "length (py_split a) \<le> length (py_split b)"
  shows "calculate_confidence q a \<le> calculate_confidence q b \<and>
         calculate_confidence q b \<le> float_lit (9/10) \<and>
         (1000 \<le> length (py_split b) \<longrightarrow> calculate_confidence q b = float_lit (9/10))"
proof -
  let ?base = "\<lambda>n::nat. py_min (float_lit (9/10))
     (fadd (float_lit (1/2)) (fmul (true_div (int n) 1000) (float_lit (4/10))))"
  have ca: "calculate_confidence q a = py_round (?base (length (py_split a))) 2"
    using assms(1-3) by (simp add: calculate_confidence_words)
  have cb: "calculate_confidence q b = py_round (?base (length (py_split b))) 2"
    using assms(1,4,5) by (simp add: calculate_confidence_words)
  have "0 \<le> ?base (length (py_split a))"
    using base_confidence_bounds(1) [of "length (py_split a)"] by linarith
  then have "py_round (?base (length (py_split a))) 2 \<le> py_round (?base (length (py_split b))) 2"
    using base_confidence_mono [OF assms(6)] by (rule py_round_mono)
  then have 1: "calculate_confidence q a \<le> calculate_confidence q b"
    by (simp only: ca cb)
  have 2: "1000 \<le> length (py_split b) \<longrightarrow> calculate_confidence q b = float_lit (9/10)"
  proof
    assume "1000 \<le> length (py_split b)"
    then have "?base (length (py_split b)) = float_lit (9/10)"
      by (rule base_confidence_cap)
    then show "calculate_confidence q b = float_lit (9/10)"
      by (simp only: cb py_round_cap)
  qed
  from 1 2 calculate_confidence_bounds(2) [of q b] show ?thesis by blast
qed

lemma word_count_examples:
  "length (py_split ''When are you open?'') = 4"
  "length (py_split ''Open Monday'') = 2"
  "length (py_split ''Open Monday to Friday'') = 4"
  "length (py_split ''When are you open today?'') = 5"
  "length (py_split ''Can I pay by card or by cash if I come in on a Sunday?'') = 15"
  by code_simp+

theorem confidence_monotone_in_context_witness:
  "length (py_split ''When are you open?'') \<le> 10 \<and>
   length (py_split ''Open Monday'') \<le> length (py_split ''Open Monday to Friday'') \<and>
   calculate_confidence ''When are you open?'' ''Open Monday''
     \<le> calculate_confidence ''When are you open?'' ''Open Monday to Friday''"
  using confidence_monotone_in_context
    [where q = "''When are you open?''" and a = "''Open Monday''" and b = "''Open Monday to Friday''"]
  by (simp add: word_count_examples del: py_split.simps)

text \<open>
  Claim C7. For every context that is not empty and not the placeholder, a question of
  15 words gets a strictly lower confidence than a question of 5 words: the factor 0.9
  survives the rounding to two decimal places.
\<close>

theorem confidence_lower_for_long_question:
  assumes "length (py_split q5) = 5" "length (py_split q15) = 15"
    and "c \<noteq> []" "c \<noteq> ''No knowledge base available.''"
  shows "calculate_confidence q15 c < calculate_confidence q5 c"
proof -
  let ?b = "py_min (float_lit (9/10))
     (fadd (float_lit (1/2)) (fmul (true_div (int (length (py_split c))) 1000) (float_lit (4/10))))"
  have 5: "calculate_confidence q5 c = py_round ?b 2"
    using assms(1,3,4) by (simp add: calculate_confidence_words)
  have 15: "calculate_confidence q15 c = py_round (fmul ?b (float_lit (9/10))) 2"
    using assms(2,3,4) by (simp add: calculate_confidence_words)
  have "py_round (fmul ?b (float_lit (9/10))) 2 < py_round ?b 2"
    by (rule py_round_strict) (rule base_confidence_bounds)+
  then show ?thesis by (simp only: 5 15)
qed

theorem confidence_lower_for_long_question_witness:
  "length (py_split ''When are you open today?'') = 5 \<and>
   length (py_split ''Can I pay by card or by cash if I come in on a Sunday?'') = 15 \<and>
   calculate_confidence ''Can I pay by card or by cash if I come in on a Sunday?''
     ''Open Monday to Friday''
   < calculate_confidence ''When are you open today?'' ''Open Monday to Friday''"
  using confidence_lower_for_long_question
    [where ?q5.0 = "''When are you open today?''"
       and ?q15.0 = "''Can I pay by card or by cash if I come in on a Sunday?''"
       and c = "''Open Monday to Friday''"]
  by (simp add: word_count_examples del: py_split.simps)

section \<open>The confidence of a response\<close>

text \<open>
  Claim C5 says that the confidence returned by \<^verbatim>\<open>answer_question\<close> lies in [0.0, 0.9] and
  is 0.3 whenever no index exists. The second part fails as stated: with no index and a
  completion service that is down, the error response is returned and its confidence is
  0.0.
\<close>

theorem confidence_without_index_counterexample:
  "vectorstore \<lparr>llm = llm_down, vectorstore = None\<rparr> = None \<and>
   confidence (fst (answer_question \<lparr>llm = llm_down, vectorstore = None\<rparr> ''When are you open?'' [])) = 0 \<and>
   confidence (fst (answer_question \<lparr>llm = llm_down, vectorstore = None\<rparr> ''When are you open?'' []))
     \<noteq> float_lit (3/10)"
  by (simp add: answer_question_eq llm_down_def error_response_def float_lit_values)

text \<open>
  Claim C5, as amended. For every question and context, the confidence in the result of
  \<^verbatim>\<open>answer_question\<close> lies in the closed interval [0.0, 0.9]; when no index exists it is
  0.3 if the completion call for the answer returns, and 0.0 if that call raises.
\<close>

theorem confidence_range:
  "0 \<le> confidence (fst (answer_question self q c)) \<and>
   confidence (fst (answer_question self q c)) \<le> float_lit (9/10) \<and>
   (vectorstore self = None \<longrightarrow>
      confidence (fst (answer_question self q c)) =
        (if isl (llm self (answer_prompt self q c)) then 0 else float_lit (3/10)))"
proof (cases "llm self (answer_prompt self q c)")
  case (Inl e)
  then have "confidence (fst (answer_question self q c)) = 0"
    by (simp add: answer_question_eq error_response_def)
  moreover have "0 \<le> float_lit (9/10)" by (rule float_lit_nonneg) simp
  ultimately show ?thesis using Inl by simp
next
  case (Inr a)
  then have "confidence (fst (answer_question self q c)) =
      calculate_confidence q (fst (get_relevant_context self q))"
    by (simp add: answer_question_eq)
  moreover have "vectorstore self = None \<longrightarrow>
      calculate_confidence q (fst (get_relevant_context self q)) = float_lit (3/10)"
    by (simp add: get_relevant_context_no_index calculate_confidence_placeholder)
  ultimately show ?thesis
    using Inr calculate_confidence_bounds [of q "fst (get_relevant_context self q)"] by simp
qed

theorem confidence_range_witness:
  "vectorstore \<lparr>llm = llm_up, vectorstore = None\<rparr> = None \<and>
   confidence (fst (answer_question \<lparr>llm = llm_up, vectorstore = None\<rparr> ''When are you open?'' []))
     = float_lit (3/10) \<and>
   0 \<le> float_lit (3/10) \<and> float_lit (3/10) \<le> float_lit (9/10)"
  using confidence_range
    [where self = "\<lparr>llm = llm_up, vectorstore = None\<rparr>" and q = "''When are you open?''"
       and c = "[]"]
  by (simp add: llm_up_def)

section \<open>A failing similarity search\<close>

text \<open>
  Claim C9 says that, when an index exists and the similarity search raises during
  retrieval, the result has source \<^verbatim>\<open>"knowledge_base"\<close> and a confidence computed from the
  text \<^verbatim>\<open>"Error retrieving relevant information."\<close>. It fails as stated when the completion
  call for the answer raises as well: then the error response is returned.
\<close>

theorem retrieval_failure_counterexample:
  "vectorstore \<lparr>llm = llm_down, vectorstore = Some store_broken\<rparr> = Some store_broken \<and>
   similarity_search store_broken ''When are you open?'' 3 = Inl (Error ''index unreadable'') \<and>
   source (fst (answer_question \<lparr>llm = llm_down, vectorstore = Some store_broken\<rparr>
                  ''When are you open?'' [])) = ''error'' \<and>
   confidence (fst (answer_question \<lparr>llm = llm_down, vectorstore = Some store_broken\<rparr>
                      ''When are you open?'' [])) = 0"
  by (simp add: answer_question_eq llm_down_def error_response_def store_broken_def)

lemma calculate_confidence_error_text:
  "calculate_confidence q ''Error retrieving relevant information.'' =
     (if length (py_split q) \<le> 10 then 1/2 else float_lit (45/100))"
proof -
  have "calculate_confidence q ''Error retrieving relevant information.'' =
     py_round
       (if 10 < length (py_split q)
        then fmul (py_min (float_lit (9/10))
               (fadd (float_lit (1/2)) (fmul (true_div (int 4) 1000) (float_lit (4/10)))))
               (float_lit (9/10))
        else py_min (float_lit (9/10))
               (fadd (float_lit (1/2)) (fmul (true_div (int 4) 1000) (float_lit (4/10)))))
       2"
    by (simp only: word_count_error_text [symmetric])
       (rule calculate_confidence_words; simp)
  then show ?thesis
    using confidence_four_words(1,2) by (simp del: py_split.simps)
qed

text \<open>
  Claim C9, as amended. If an index exists, the similarity search raises during
  retrieval and the completion call for the answer returns, then the retrieval step
  returns the text \<^verbatim>\<open>"Error retrieving relevant information."\<close>, the result has source
  \<^verbatim>\<open>"knowledge_base"\<close>, and its confidence is computed from that text of 4 words: 0.5 for a
  question of at most 10 words (0.45 for a longer one), not the 0.3 of a missing index.
\<close>

theorem retrieval_failure_continues:
  assumes "vectorstore self = Some vs"
    and "similarity_search vs q 3 = Inl e"
    and "llm self
           (faq_prompt_format q
              (if c \<noteq> [] then c @ ''\<newline>\<newline>'' @ ''Error retrieving relevant information.''
               else ''Error retrieving relevant information.'')
              get_business_info) = Inr a"
  shows "get_relevant_context self q =
           (''Error retrieving relevant information.'', [Search_call q 3]) \<and>
         source (fst (answer_question self q c)) = ''knowledge_base'' \<and>
         confidence (fst (answer_question self q c)) =
           calculate_confidence q ''Error retrieving relevant information.'' \<and>
         confidence (fst (answer_question self q c)) =
           (if length (py_split q) \<le> 10 then 1/2 else float_lit (45/100)) \<and>
         confidence (fst (answer_question self q c)) \<noteq> float_lit (3/10)"
proof -
  have r: "get_relevant_context self q =
      (''Error retrieving relevant information.'', [Search_call q 3])"
    using assms(1,2) by (simp add: get_relevant_context_def)
  have p: "answer_prompt self q c =
      faq_prompt_format q
        (if c \<noteq> [] then c @ ''\<newline>\<newline>'' @ ''Error retrieving relevant information.''
         else ''Error retrieving relevant information.'')
        get_business_info"
    by (simp add: answer_prompt_def r)
  have s: "source (fst (answer_question self q c)) = ''knowledge_base''"
    and k: "confidence (fst (answer_question self q c)) =
      calculate_confidence q ''Error retrieving relevant information.''"
    using assms(3) by (simp_all add: answer_question_eq p r)
  have v: "(1/2 :: rat) \<noteq> float_lit (3/10)" "float_lit (45/100) \<noteq> float_lit (3/10)"
    using confidence_four_words(3) by (simp_all add: float_lit_values)
  have k': "confidence (fst (answer_question self q c)) =
      (if length (py_split q) \<le> 10 then 1/2 else float_lit (45/100))"
    by (simp only: k calculate_confidence_error_text)
  have n: "confidence (fst (answer_question self q c)) \<noteq> float_lit (3/10)"
    using v by (cases "length (py_split q) \<le> 10") (simp_all only: k' if_True if_False not_False_eq_True)
  from r s k k' n show ?thesis by blast
qed

theorem retrieval_failure_continues_witness:
  "vectorstore \<lparr>llm = llm_up, vectorstore = Some store_broken\<rparr> = Some store_broken \<and>
   similarity_search store_broken ''When are you open?'' 3 = Inl (Error ''index unreadable'') \<and>
   get_relevant_context \<lparr>llm = llm_up, vectorstore = Some store_broken\<rparr> ''When are you open?'' =
     (''Error retrieving relevant information.'', [Search_call ''When are you open?'' 3]) \<and>
   source (fst (answer_question \<lparr>llm = llm_up, vectorstore = Some store_broken\<rparr>
                  ''When are you open?'' [])) = ''knowledge_base'' \<and>
   confidence (fst (answer_question \<lparr>llm = llm_up, vectorstore = Some store_broken\<rparr>
                      ''When are you open?'' [])) = 1/2"
  using retrieval_failure_continues
    [where self = "\<lparr>llm = llm_up, vectorstore = Some store_broken\<rparr>" and vs = store_broken
       and q = "''When are you open?''" and c = "[]" and e = "Error ''index unreadable''"
       and a = "'' We are open Monday to Friday. ''"]
  by (simp add: llm_up_def store_broken_def word_count_examples del: py_split.simps)

end
